theory Spec2Isabelle
  imports Main "HOL-Library.Sublist" "HOL-Library.Char_ord"
begin

section \<open>JavaScript string primitives used by the session manager\<close>

text \<open>
  A JavaScript string is a sequence of code units; it is modelled as a \<^typ>\<open>string\<close>
  (a list of characters). Every primitive below is the library method the source calls,
  written out as a function on lists: \<open>includes\<close>, \<open>split\<close> with a string separator,
  \<open>pop\<close>, \<open>toLowerCase\<close> and \<open>replace\<close> with the pattern \<open>/[^0-9]/g\<close>.
  A character stands for a code unit below 256; \<open>toLowerCase\<close> maps each capital letter
  among them to its small letter and leaves every other character alone.
\<close>

text \<open>\<open>s.includes(sub)\<close>: \<open>sub\<close> occurs in \<open>s\<close> at some position.\<close>

fun js_includes :: "'a list \<Rightarrow> 'a list \<Rightarrow> bool" where
  "js_includes [] sub = (sub = [])"
| "js_includes (c # cs) sub = (prefix sub (c # cs) \<or> js_includes cs sub)"

text \<open>
  \<open>s.split(sep)\<close> for a non-empty separator: the pieces between the occurrences of \<open>sep\<close>,
  found from the left and not overlapping. When \<open>sep\<close> starts at the current position the
  current piece ends and the scan goes on behind the separator; otherwise the character
  joins the current piece.
\<close>

fun split_at :: "'a list \<Rightarrow> 'a list \<Rightarrow> 'a list list" where
  "split_at sep [] = [[]]"
| "split_at sep (c # cs) =
     (if prefix sep (c # cs) then [] # split_at sep (drop (length sep - 1) cs)
      else (case split_at sep cs of
              [] \<Rightarrow> [[c]]
            | w # ws \<Rightarrow> (c # w) # ws))"

text \<open>\<open>s.split(sep)\<close>; the empty separator splits between all code units.\<close>

definition split :: "'a list \<Rightarrow> 'a list \<Rightarrow> 'a list list" where
  "split s sep = (if sep = [] then map (\<lambda>c. [c]) s else split_at sep s)"

text \<open>\<open>a.pop()\<close> as a value: the last element, \<open>undefined\<close> (\<open>None\<close>) on the empty array.\<close>

definition pop :: "'a list \<Rightarrow> 'a option" where
  "pop xs = (if xs = [] then None else Some (last xs))"

text \<open>
  The capital letters among the code units below 256 and their small letters: \<open>A\<close> to \<open>Z\<close>,
  and \<open>0xC0\<close> to \<open>0xDE\<close> without the multiplication sign \<open>0xD7\<close>.
\<close>

definition capitals :: "char list" where
  "capitals = ''ABCDEFGHIJKLMNOPQRSTUVWXYZ'' @
        [CHR 0xC0, CHR 0xC1, CHR 0xC2, CHR 0xC3, CHR 0xC4, CHR 0xC5, CHR 0xC6, CHR 0xC7,
         CHR 0xC8, CHR 0xC9, CHR 0xCA, CHR 0xCB, CHR 0xCC, CHR 0xCD, CHR 0xCE, CHR 0xCF,
         CHR 0xD0, CHR 0xD1, CHR 0xD2, CHR 0xD3, CHR 0xD4, CHR 0xD5, CHR 0xD6, CHR 0xD8,
         CHR 0xD9, CHR 0xDA, CHR 0xDB, CHR 0xDC, CHR 0xDD, CHR 0xDE]"

definition smalls :: "char list" where
  "smalls = ''abcdefghijklmnopqrstuvwxyz'' @
        [CHR 0xE0, CHR 0xE1, CHR 0xE2, CHR 0xE3, CHR 0xE4, CHR 0xE5, CHR 0xE6, CHR 0xE7,
         CHR 0xE8, CHR 0xE9, CHR 0xEA, CHR 0xEB, CHR 0xEC, CHR 0xED, CHR 0xEE, CHR 0xEF,
         CHR 0xF0, CHR 0xF1, CHR 0xF2, CHR 0xF3, CHR 0xF4, CHR 0xF5, CHR 0xF6, CHR 0xF8,
         CHR 0xF9, CHR 0xFA, CHR 0xFB, CHR 0xFC, CHR 0xFD, CHR 0xFE]"

definition lower_char :: "char \<Rightarrow> char" where
  "lower_char c = (case map_of (zip capitals smalls) c of Some l \<Rightarrow> l | None \<Rightarrow> c)"

definition toLowerCase :: "string \<Rightarrow> string" where
  "toLowerCase s = map lower_char s"

text \<open>The character class \<open>[0-9]\<close>.\<close>

definition is_digit :: "char \<Rightarrow> bool" where
  "is_digit c \<longleftrightarrow> CHR ''0'' \<le> c \<and> c \<le> CHR ''9''"

text \<open>\<open>s.replace(/[^0-9]/g, '')\<close>: every character outside \<open>[0-9]\<close> is replaced by nothing.\<close>

fun replace_non_digits :: "string \<Rightarrow> string" where
  "replace_non_digits [] = []"
| "replace_non_digits (c # cs) =
     (if is_digit c then c # replace_non_digits cs else replace_non_digits cs)"

section \<open>Chat identifier formatter\<close>

text \<open>
  \<^verbatim>\<open>formatChatId(phone, isGroup)\<close>:
  \<^verbatim>\<open>isGroup ? (phone.includes('@g.us') ? phone : `${phone}@g.us`)
          : `${phone.replace(/[^0-9]/g, '')}@c.us`\<close>
\<close>

definition formatChatId :: "string \<Rightarrow> bool \<Rightarrow> string" where
  "formatChatId phone isGroup =
     (if isGroup then (if js_includes phone ''@g.us'' then phone else phone @ ''@g.us'')
      else (let cleanPhone = replace_non_digits phone in cleanPhone @ ''@c.us''))"

section \<open>MIME resolver\<close>

text \<open>The object literal \<open>mimeTypes\<close> of \<open>getMimeType\<close>, in the order of the source.\<close>

definition mimeTypes :: "(string \<times> string) list" where
  "mimeTypes =
    [(''jpg'', ''image/jpeg''),
     (''jpeg'', ''image/jpeg''),
     (''png'', ''image/png''),
     (''gif'', ''image/gif''),
     (''webp'', ''image/webp''),
     (''bmp'', ''image/bmp''),
     (''svg'', ''image/svg+xml''),
     (''pdf'', ''application/pdf''),
     (''doc'', ''application/msword''),
     (''docx'', ''application/vnd.openxmlformats-officedocument.wordprocessingml.document''),
     (''xls'', ''application/vnd.ms-excel''),
     (''xlsx'', ''application/vnd.openxmlformats-officedocument.spreadsheetml.sheet''),
     (''ppt'', ''application/vnd.ms-powerpoint''),
     (''pptx'', ''application/vnd.openxmlformats-officedocument.presentationml.presentation''),
     (''txt'', ''text/plain''),
     (''csv'', ''text/csv''),
     (''mp3'', ''audio/mpeg''),
     (''wav'', ''audio/wav''),
     (''ogg'', ''audio/ogg''),
     (''m4a'', ''audio/mp4''),
     (''mp4'', ''video/mp4''),
     (''avi'', ''video/x-msvideo''),
     (''mov'', ''video/quicktime''),
     (''wmv'', ''video/x-ms-wmv''),
     (''zip'', ''application/zip''),
     (''rar'', ''application/x-rar-compressed''),
     (''7z'', ''application/x-7z-compressed'')]"

text \<open>
  What an indexing expression \<open>mimeTypes[key]\<close> can evaluate to. The table is a plain
  object, so besides its own entries (strings) a key also finds the properties the object
  inherits from \<open>Object.prototype\<close>. The key is always the result of \<open>toLowerCase\<close>; of the
  inherited names only \<open>constructor\<close> and \<open>__proto__\<close> are written without a capital letter.
  Both hold an object, which is truthy.
\<close>

datatype mime_value = MimeString string | ObjectConstructor | ObjectPrototype

definition mimeTypes_get :: "string \<Rightarrow> mime_value option" where
  "mimeTypes_get key =
     (case map_of mimeTypes key of
        Some m \<Rightarrow> Some (MimeString m)
      | None \<Rightarrow>
          if key = ''constructor'' then Some ObjectConstructor
          else if key = ''__proto__'' then Some ObjectPrototype
          else None)"

text \<open>\<^verbatim>\<open>const ext = filename.split('.').pop()?.toLowerCase();\<close>\<close>

definition extension :: "string \<Rightarrow> string option" where
  "extension filename = map_option toLowerCase (pop (split filename ''.''))"

text \<open>
  \<^verbatim>\<open>return mimeTypes[ext || ''] || 'application/octet-stream';\<close>
  An \<open>undefined\<close> or empty \<open>ext\<close> gives the key \<open>''\<close>; every value of the table is a
  non-empty string, so the default is taken exactly when the key finds nothing.
\<close>

definition getMimeType :: "string \<Rightarrow> mime_value" where
  "getMimeType filename =
     (let ext = extension filename;
          key = (case ext of None \<Rightarrow> [] | Some e \<Rightarrow> if e = [] then [] else e)
      in case mimeTypes_get key of
           Some v \<Rightarrow> v
         | None \<Rightarrow> MimeString ''application/octet-stream'')"

section \<open>Session manager\<close>

text \<open>The fields of \<open>WhatsAppClientManager\<close>. \<open>null\<close> is \<open>None\<close>.\<close>

record QRCodeState =
  qr :: "string option"
  timestamp :: int

text \<open>The handle of the transport, \<open>new Client({...})\<close>; the manager creates one.\<close>

datatype Client = Client

record manager =
  client :: "Client option"
  qrCodeState :: QRCodeState
  isInitializing :: bool
  isReady :: bool

text \<open>The field initialisers, and the state the constructor leaves behind
  (\<open>initializeClient\<close> on a manager without a client). Registering the handlers and
  starting the transport with \<open>client.initialize()\<close> write no field.\<close>

definition fields_initial :: manager where
  "fields_initial =
     \<lparr>client = None, qrCodeState = \<lparr>qr = None, timestamp = 0\<rparr>,
      isInitializing = False, isReady = False\<rparr>"

definition initializeClient :: "manager \<Rightarrow> manager" where
  "initializeClient s =
     (if client s \<noteq> None then s
      else s\<lparr>isInitializing := True, client := Some Client\<rparr>)"

subsection \<open>Transport events\<close>

text \<open>
  The events the handlers of \<open>setupEventHandlers\<close> are registered for. The \<open>qr\<close> event
  carries the code, and the value \<open>Date.now()\<close> has when its handler runs.
\<close>

datatype event =
    QrEvent string int
  | Authenticated
  | AuthFailure string
  | Ready
  | Disconnected string
  | LoadingScreen string

fun handle :: "event \<Rightarrow> manager \<Rightarrow> manager" where
  "handle (QrEvent code now) s = s\<lparr>qrCodeState := \<lparr>qr = Some code, timestamp = now\<rparr>\<rparr>"
| "handle Authenticated s = s\<lparr>qrCodeState := \<lparr>qr = None, timestamp = 0\<rparr>\<rparr>"
| "handle (AuthFailure msg) s = s\<lparr>isReady := False\<rparr>"
| "handle Ready s =
     s\<lparr>isInitializing := False, isReady := True,
       qrCodeState := \<lparr>qr = None, timestamp = 0\<rparr>\<rparr>"
| "handle (Disconnected reason) s =
     s\<lparr>isReady := False, qrCodeState := \<lparr>qr = None, timestamp = 0\<rparr>\<rparr>"
| "handle (LoadingScreen percent) s = s"

text \<open>A run of events, handled one after the other.\<close>

definition deliver :: "event list \<Rightarrow> manager \<Rightarrow> manager" where
  "deliver evs s = foldl (\<lambda>s' e. handle e s') s evs"

subsection \<open>Calls to the outside, and what they answer\<close>

text \<open>
  The manager's methods are modelled with explicit state passing: each returns its result
  (or the error it throws), the manager afterwards, and the calls it made to the external
  collaborators, in order. What an external call answers is a parameter of the method.
\<close>

type_synonym buffer = "nat list"

record MessageMedia =
  media_mimetype :: mime_value
  media_data :: "string option"
  media_filename :: string

datatype content = Text string | Media MessageMedia "string option"

datatype call =
    SendMessage string content
  | Logout
  | ToBuffer string

datatype error =
    ClientNotReady
  | NoClientToLogout
  | External string

record SendResult =
  success :: bool
  messageId :: string

subsection \<open>Queries\<close>

definition isClientReady :: "manager \<Rightarrow> bool" where
  "isClientReady s = isReady s"

definition isClientInitializing :: "manager \<Rightarrow> bool" where
  "isClientInitializing s = isInitializing s"

definition hasQRCode :: "manager \<Rightarrow> bool" where
  "hasQRCode s = (qr (qrCodeState s) \<noteq> None)"

text \<open>
  \<open>getQRCodeImage\<close>: \<open>null\<close> when the cached code is \<open>null\<close> or the empty string (both are
  falsy), and when the encoder throws; the PNG of the cached code otherwise.
\<close>

definition getQRCodeImage ::
  "(string \<Rightarrow> error + buffer) \<Rightarrow> manager \<Rightarrow> buffer option \<times> manager \<times> call list" where
  "getQRCodeImage toBuffer s =
     (case qr (qrCodeState s) of
        None \<Rightarrow> (None, s, [])
      | Some code \<Rightarrow>
          if code = [] then (None, s, [])
          else (case toBuffer code of
                  Inr buf \<Rightarrow> (Some buf, s, [ToBuffer code])
                | Inl e \<Rightarrow> (None, s, [ToBuffer code])))"

subsection \<open>Dispatch\<close>

text \<open>
  \<open>sendMessage(phone, isGroup, message)\<close>. \<open>transport\<close> is what \<open>client.sendMessage\<close>
  does with a chat id and a content: it throws (\<open>Inl\<close>) or yields the serialized id of the
  message.
\<close>

definition sendMessage ::
  "(string \<Rightarrow> content \<Rightarrow> error + string) \<Rightarrow> string \<Rightarrow> bool \<Rightarrow> string \<Rightarrow> manager
     \<Rightarrow> (error + SendResult) \<times> manager \<times> call list" where
  "sendMessage transport phone isGroup message s =
     (if client s = None \<or> \<not> isReady s then (Inl ClientNotReady, s, [])
      else
        let chatId = formatChatId phone isGroup in
        (case transport chatId (Text message) of
           Inr mid \<Rightarrow>
             (Inr \<lparr>success = True, messageId = mid\<rparr>, s, [SendMessage chatId (Text message)])
         | Inl e \<Rightarrow> (Inl e, s, [SendMessage chatId (Text message)])))"

text \<open>
  \<open>sendFile(phone, isGroup, filename, base64, caption?)\<close>. \<open>base64\<close> is \<open>None\<close> when the
  caller hands over \<open>undefined\<close>; \<open>caption || undefined\<close> drops an empty caption.
\<close>

definition sendFile ::
  "(string \<Rightarrow> content \<Rightarrow> error + string) \<Rightarrow> string \<Rightarrow> bool \<Rightarrow> string \<Rightarrow> string option
     \<Rightarrow> string option \<Rightarrow> manager \<Rightarrow> (error + SendResult) \<times> manager \<times> call list" where
  "sendFile transport phone isGroup filename base64 caption s =
     (if client s = None \<or> \<not> isReady s then (Inl ClientNotReady, s, [])
      else
        let chatId = formatChatId phone isGroup;
            mimeType = getMimeType filename;
            media = \<lparr>media_mimetype = mimeType, media_data = base64,
                     media_filename = filename\<rparr>;
            options = (case caption of
                         None \<Rightarrow> None
                       | Some cap \<Rightarrow> if cap = [] then None else Some cap)
        in
        (case transport chatId (Media media options) of
           Inr mid \<Rightarrow>
             (Inr \<lparr>success = True, messageId = mid\<rparr>, s, [SendMessage chatId (Media media options)])
         | Inl e \<Rightarrow> (Inl e, s, [SendMessage chatId (Media media options)])))"

subsection \<open>Logout\<close>

text \<open>
  \<open>logout()\<close>. \<open>transport_logout\<close> is what \<open>client.logout()\<close> does: it throws or returns.
  The \<open>catch\<close> block rethrows; the \<open>finally\<close> block runs on both paths.
\<close>

definition logout_finally :: "manager \<Rightarrow> manager" where
  "logout_finally s = s\<lparr>isReady := False, qrCodeState := \<lparr>qr = None, timestamp = 0\<rparr>\<rparr>"

definition logout :: "(error + unit) \<Rightarrow> manager \<Rightarrow> (error + unit) \<times> manager \<times> call list" where
  "logout transport_logout s =
     (if client s = None then (Inl NoClientToLogout, s, [])
      else
        (case transport_logout of
           Inr u \<Rightarrow> (Inr (), logout_finally s, [Logout])
         | Inl e \<Rightarrow> (Inl e, logout_finally s, [Logout])))"

section \<open>Routes\<close>

text \<open>
  The two route handlers the properties below speak about. A response is a JSON body with
  its status, or the PNG body of \<open>GET /api/qr\<close>.
\<close>

datatype json =
    Failure string
  | FailureDetails string string
  | FileSent string string bool string

datatype response = Json json nat | Png buffer

text \<open>\<open>error.message\<close> of the errors the manager throws itself and of external ones.\<close>

fun error_message :: "error \<Rightarrow> string" where
  "error_message ClientNotReady = ''Client is not ready''"
| "error_message NoClientToLogout = ''No client to logout''"
| "error_message (External m) = m"

subsection \<open>\<open>GET /api/qr\<close>\<close>

text \<open>
  The wait for the first code: \<open>while (!hasQRCode() && attempts < 20)\<close>, each round a
  sleep of 500 ms. Event handlers run while the request sleeps; \<open>during n\<close> is the run of
  events handled in the sleep of round \<open>n\<close>. The queries and \<open>getQRCodeImage\<close> do not
  throw, so the \<open>catch\<close> block of the handler (status 500) is never entered.
\<close>

function poll :: "(nat \<Rightarrow> event list) \<Rightarrow> nat \<Rightarrow> manager \<Rightarrow> manager" where
  "poll during attempts s =
     (if \<not> hasQRCode s \<and> attempts < 20
      then poll during (attempts + 1) (deliver (during attempts) s)
      else s)"
  by pat_completeness auto
termination
  by (relation "measure (\<lambda>(during, attempts, s). 20 - attempts)") auto

definition get_qr ::
  "(string \<Rightarrow> error + buffer) \<Rightarrow> (nat \<Rightarrow> event list) \<Rightarrow> manager
     \<Rightarrow> response \<times> manager \<times> call list" where
  "get_qr toBuffer during s =
     (if isClientReady s
      then (Json (Failure ''Already authenticated. Please logout first to get a new QR code.'') 400,
            s, [])
      else
        let s1 = (if isClientInitializing s \<and> \<not> hasQRCode s then poll during 0 s else s)
        in (case getQRCodeImage toBuffer s1 of
              (None, s2, calls) \<Rightarrow>
                (Json (Failure ''QR code not available. Client might be authenticated already or still initializing. Please try again in a moment.'') 404,
                 s2, calls)
            | (Some qrImage, s2, calls) \<Rightarrow> (Png qrImage, s2, calls)))"

subsection \<open>\<open>POST /api/send-file\<close>\<close>

text \<open>The parsed body; a field the JSON does not have is \<open>None\<close>.\<close>

record SendFileRequest =
  body_phone :: "string option"
  body_isGroup :: "bool option"
  body_filename :: "string option"
  body_caption :: "string option"
  body_base64 :: "string option"

text \<open>\<open>a[i]\<close>: \<open>undefined\<close> beyond the end of the array.\<close>

definition element :: "'a list \<Rightarrow> nat \<Rightarrow> 'a option" where
  "element xs i = (if i < length xs then Some (xs ! i) else None)"

text \<open>
  \<^verbatim>\<open>let base64Data = body.base64;
  if (base64Data.includes('base64,')) { base64Data = base64Data.split('base64,')[1]; }\<close>
\<close>

definition base64Data :: "string \<Rightarrow> string option" where
  "base64Data base64 =
     (if js_includes base64 ''base64,'' then element (split base64 ''base64,'') 1
      else Some base64)"

text \<open>
  The handler. \<open>body\<close> is what \<open>c.req.json()\<close> gives: it throws, or it is the parsed body.
  Every exception ends in the \<open>catch\<close> block, which answers 500.
\<close>

definition send_file ::
  "(string \<Rightarrow> content \<Rightarrow> error + string) \<Rightarrow> error + SendFileRequest \<Rightarrow> manager
     \<Rightarrow> response \<times> manager \<times> call list" where
  "send_file transport body s =
     (if \<not> isClientReady s
      then (Json (Failure ''Client is not ready. Please authenticate first by scanning QR code.'') 400,
            s, [])
      else
        (case body of
           Inl e \<Rightarrow> (Json (FailureDetails ''Failed to send file'' (error_message e)) 500, s, [])
         | Inr b \<Rightarrow>
            (case (body_phone b, body_isGroup b, body_filename b, body_base64 b) of
               (Some phone, Some isGroup, Some filename, Some base64) \<Rightarrow>
                 if phone = [] \<or> filename = [] \<or> base64 = []
                 then (Json (Failure ''Missing required fields: phone, isGroup, filename, and base64 are required'') 400,
                       s, [])
                 else
                   (case sendFile transport phone isGroup filename (base64Data base64)
                           (body_caption b) s of
                      (Inr result, s', calls) \<Rightarrow>
                        (Json (FileSent (messageId result) phone isGroup filename) 200, s', calls)
                    | (Inl e, s', calls) \<Rightarrow>
                        (Json (FailureDetails ''Failed to send file'' (error_message e)) 500,
                         s', calls))
             | _ \<Rightarrow>
                 (Json (Failure ''Missing required fields: phone, isGroup, filename, and base64 are required'') 400,
                  s, []))))"

section \<open>Example states\<close>

text \<open>The manager right after construction, and a ready manager that still caches a code.\<close>

definition constructed :: manager where
  "constructed = initializeClient fields_initial"

definition ready_with_code :: manager where
  "ready_with_code =
     \<lparr>client = Some Client, qrCodeState = \<lparr>qr = Some ''2@abc'', timestamp = 1700000000000\<rparr>,
      isInitializing = False, isReady = True\<rparr>"

definition ready_manager :: manager where
  "ready_manager = handle Ready constructed"

section \<open>Facts about the string primitives\<close>

lemma js_includes_sublist: "js_includes s sub \<longleftrightarrow> sublist sub s"
  by (induction s) (auto simp: sublist_Cons_right)

lemma split_at_not_Nil: "split_at sep s \<noteq> []"
  by (induction sep s rule: split_at.induct) (auto split: list.splits)

lemma split_at_absent: "sep \<noteq> [] \<Longrightarrow> \<not> sublist sep s \<Longrightarrow> split_at sep s = [s]"
proof (induction s)
  case Nil
  then show ?case by simp
next
  case (Cons c cs)
  from Cons.prems have np: "\<not> prefix sep (c # cs)" and ns: "\<not> sublist sep cs"
    by (auto simp: sublist_Cons_right)
  with Cons show ?case by simp
qed

lemma no_border:
  assumes "distinct sep" and "a \<noteq> []" and "\<not> sublist sep a"
  shows "\<not> prefix sep (a @ sep @ r)"
proof
  assume p: "prefix sep (a @ sep @ r)"
  show False
  proof (cases "length sep \<le> length a")
    case True
    with p have "prefix sep a"
      by (metis prefix_length_prefix append_prefixD prefix_order.order_refl)
    then show False using assms(3) by (auto dest: prefix_imp_sublist)
  next
    case False
    then have la: "length a < length sep" by simp
    from p obtain t where t: "a @ sep @ r = sep @ t" by (auto simp: prefix_def)
    have "sep ! length a = (a @ sep @ r) ! length a" using t la by (simp add: nth_append)
    also have "\<dots> = sep ! 0" using la by (cases sep) (simp_all add: nth_append)
    finally have "sep ! length a = sep ! 0" .
    moreover have "0 < length a" using assms(2) by simp
    ultimately show False using assms(1) la
      by (metis nth_eq_iff_index_eq less_nat_zero_code length_greater_0_conv not_less_iff_gr_or_eq order.strict_trans)
  qed
qed

lemma split_at_first:
  assumes "sep \<noteq> []" and "distinct sep"
  shows "\<not> sublist sep a \<Longrightarrow> split_at sep (a @ sep @ r) = a # split_at sep r"
proof (induction a)
  case Nil
  from assms(1) obtain d ds where sep: "sep = d # ds" by (cases sep) auto
  then show ?case by simp
next
  case (Cons c cs)
  have "\<not> prefix sep ((c # cs) @ sep @ r)"
    using no_border [OF assms(2) _ Cons.prems] by simp
  moreover have "\<not> sublist sep cs" using Cons.prems by (auto simp: sublist_Cons_right)
  ultimately show ?case using Cons.IH by simp
qed

lemma split_at_char_length: "2 \<le> length (split_at [d] (p @ d # e))"
  by (induction p) (auto simp: split_at_not_Nil Suc_le_eq split: list.splits)

lemma split_at_char_last: "last (split_at [d] (p @ d # e)) = last (split_at [d] e)"
proof (induction p)
  case Nil
  then show ?case by (simp add: split_at_not_Nil)
next
  case (Cons c cs)
  show ?case
  proof (cases "c = d")
    case True
    then show ?thesis using Cons by (simp add: split_at_not_Nil)
  next
    case False
    from split_at_char_length [of d cs e] obtain w v ws
      where "split_at [d] (cs @ d # e) = w # v # ws"
      by (cases "split_at [d] (cs @ d # e)"; cases "tl (split_at [d] (cs @ d # e))") auto
    then show ?thesis using False Cons by simp
  qed
qed

lemma split_at_map:
  assumes "\<And>c. h c = d \<longleftrightarrow> c = d"
  shows "split_at [d] (map h s) = map (map h) (split_at [d] s)"
proof (induction s)
  case Nil
  then show ?case by simp
next
  case (Cons c cs)
  obtain w ws where w: "split_at [d] cs = w # ws"
    using split_at_not_Nil [of "[d]" cs] by (cases "split_at [d] cs") auto
  show ?case
  proof (cases "c = d")
    case True
    then have "h c = d" using assms by simp
    then show ?thesis using True Cons by simp
  next
    case False
    then have "h c \<noteq> d" using assms by simp
    then show ?thesis using False Cons w by simp
  qed
qed

lemma replace_non_digits_filter: "replace_non_digits s = filter is_digit s"
  by (induction s) auto

lemma lower_idem: "lower_char (lower_char c) = lower_char c"
  by (simp add: lower_char_def capitals_def smalls_def)

lemma lower_char_examples:
  "lower_char CHR ''A'' = CHR ''a'' \<and> lower_char (CHR 0xC9) = CHR 0xE9 \<and>
   lower_char (CHR 0xD7) = CHR 0xD7 \<and> lower_char CHR ''7'' = CHR ''7''"
  by (simp add: lower_char_def capitals_def smalls_def)

lemma lower_dot: "lower_char c = CHR ''.'' \<longleftrightarrow> c = CHR ''.''"
  by (simp add: lower_char_def capitals_def smalls_def)

lemma is_digit_enum: "is_digit c \<longleftrightarrow> c \<in> set ''0123456789''"
proof
  assume "is_digit c"
  then have "48 \<le> (of_char c :: nat)" and "(of_char c :: nat) \<le> 57"
    by (simp_all add: is_digit_def less_eq_char_def)
  then have "(of_char c :: nat) \<in> {48, 49, 50, 51, 52, 53, 54, 55, 56, 57}"
    by (simp only: insert_iff empty_iff) arith
  also have "{48, 49, 50, 51, 52, 53, 54, 55, 56, 57} = (of_char :: char \<Rightarrow> nat) ` set ''0123456789''"
    by simp
  finally obtain d where "d \<in> set ''0123456789''" and "(of_char c :: nat) = of_char d"
    by blast
  then show "c \<in> set ''0123456789''"
    by (simp only: of_char_eq_iff)
next
  assume "c \<in> set ''0123456789''"
  then show "is_digit c" by (auto simp: is_digit_def less_eq_char_def)
qed

section \<open>Facts about the extension and the marker\<close>

lemma sublist_single: "sublist [d] s \<longleftrightarrow> d \<in> set s"
  by (induction s) (auto simp: sublist_Cons_right)

lemma extension_after_dot:
  assumes "CHR ''.'' \<notin> set e"
  shows "extension (p @ ''.'' @ e) = Some (toLowerCase e)"
proof -
  have "split_at ''.'' e = [e]"
    using assms by (simp add: split_at_absent sublist_single)
  then have "last (split_at ''.'' (p @ ''.'' @ e)) = e"
    using split_at_char_last [of "CHR ''.''" p e] by simp
  then show ?thesis
    by (simp add: extension_def split_def pop_def split_at_not_Nil)
qed

lemma extension_no_dot:
  assumes "CHR ''.'' \<notin> set f"
  shows "extension f = Some (toLowerCase f)"
proof -
  have "split_at ''.'' f = [f]"
    using assms by (simp add: split_at_absent sublist_single)
  then show ?thesis
    by (simp add: extension_def split_def pop_def)
qed

lemma toLowerCase_idem: "toLowerCase (toLowerCase s) = toLowerCase s"
  by (simp add: toLowerCase_def lower_idem)

lemma extension_toLowerCase: "extension (toLowerCase f) = extension f"
proof -
  have "split_at ''.'' (map lower_char f) = map (map lower_char) (split_at ''.'' f)"
    by (rule split_at_map) (rule lower_dot)
  then have "last (split_at ''.'' (toLowerCase f)) = toLowerCase (last (split_at ''.'' f))"
    by (simp add: toLowerCase_def last_map split_at_not_Nil)
  then show ?thesis
    by (simp add: extension_def split_def pop_def split_at_not_Nil toLowerCase_idem)
qed

lemma getMimeType_toLowerCase: "getMimeType (toLowerCase f) = getMimeType f"
  by (simp add: getMimeType_def extension_toLowerCase)

text \<open>The two inherited names answer with an object, not with a MIME string.\<close>

lemma getMimeType_inherited:
  "getMimeType ''x.constructor'' = ObjectConstructor \<and>
   getMimeType ''x.__proto__'' = ObjectPrototype"
  by (simp add: getMimeType_def extension_def split_def pop_def toLowerCase_def lower_char_def capitals_def smalls_def
      mimeTypes_get_def mimeTypes_def)

lemma marker_twice:
  assumes "\<not> sublist ''base64,'' a" and "\<not> sublist ''base64,'' b"
  shows "base64Data (a @ ''base64,'' @ b @ ''base64,'' @ c) = Some b"
proof -
  have d: "distinct ''base64,''" by simp
  have "split_at ''base64,'' (a @ ''base64,'' @ b @ ''base64,'' @ c)
          = a # split_at ''base64,'' (b @ ''base64,'' @ c)"
    by (rule split_at_first [OF _ d assms(1)]) simp
  also have "split_at ''base64,'' (b @ ''base64,'' @ c) = b # split_at ''base64,'' c"
    by (rule split_at_first [OF _ d assms(2)]) simp
  finally have "split (a @ ''base64,'' @ b @ ''base64,'' @ c) ''base64,''
      = a # b # split_at ''base64,'' c"
    by (simp add: split_def)
  moreover have "js_includes (a @ ''base64,'' @ b @ ''base64,'' @ c) ''base64,''"
    unfolding js_includes_sublist by (rule sublist_appendI)
  ultimately show ?thesis
    by (simp add: base64Data_def element_def)
qed

lemma marker_absent: "\<not> sublist ''base64,'' x \<Longrightarrow> base64Data x = Some x"
  by (simp add: base64Data_def js_includes_sublist)

lemma marker_once:
  assumes "\<not> sublist ''base64,'' a" and "\<not> sublist ''base64,'' c"
  shows "base64Data (a @ ''base64,'' @ c) = Some c"
proof -
  have d: "distinct ''base64,''" by simp
  have "split_at ''base64,'' (a @ ''base64,'' @ c) = a # split_at ''base64,'' c"
    by (rule split_at_first [OF _ d assms(1)]) simp
  also have "split_at ''base64,'' c = [c]"
    using assms(2) by (simp add: split_at_absent)
  finally have "split (a @ ''base64,'' @ c) ''base64,'' = [a, c]"
    by (simp add: split_def)
  moreover have "js_includes (a @ ''base64,'' @ c) ''base64,''"
    unfolding js_includes_sublist by (rule sublist_appendI)
  ultimately show ?thesis
    by (simp add: base64Data_def element_def)
qed

lemma send_file_forwards:
  assumes "isReady s" and "client s \<noteq> None" and "ph \<noteq> []" and "fn \<noteq> []" and "d \<noteq> []"
  shows "snd (snd (send_file transport
             (Inr \<lparr>body_phone = Some ph, body_isGroup = Some g, body_filename = Some fn,
                   body_caption = cap, body_base64 = Some d\<rparr>) s))
           = [SendMessage (formatChatId ph g)
                (Media \<lparr>media_mimetype = getMimeType fn, media_data = base64Data d,
                        media_filename = fn\<rparr>
                   (case cap of None \<Rightarrow> None
                    | Some t \<Rightarrow> if t = [] then None else Some t))]"
  using assms
  by (simp add: send_file_def isClientReady_def sendFile_def Let_def split: sum.splits)

section \<open>Facts about event delivery\<close>

lemma deliver_append: "deliver (evs @ evs') s = deliver evs' (deliver evs s)"
  by (simp add: deliver_def)

lemma deliver_Cons: "deliver (e # evs) s = deliver evs (handle e s)"
  by (simp add: deliver_def)

lemma deliver_Nil: "deliver [] s = s"
  by (simp add: deliver_def)

section \<open>The readiness gate of the dispatch operations\<close>

text \<open>
  Claim C1. In every state that is not ready (no transport handle, or \<open>isReady\<close> false)
  \<open>sendMessage\<close> and \<open>sendFile\<close> both throw the error "Client is not ready", call nothing
  on the transport (the list of calls is empty), and leave the manager as it was.
\<close>

theorem not_ready_gate:
  assumes "client s = None \<or> \<not> isReady s"
  shows "sendMessage transport raw g message s = (Inl ClientNotReady, s, []) \<and>
         sendFile transport raw g fname b64 cap s = (Inl ClientNotReady, s, [])"
  using assms by (simp add: sendMessage_def sendFile_def)

theorem not_ready_gate_witness:
  "(client constructed = None \<or> \<not> isReady constructed) \<and>
   sendMessage (\<lambda>chatId c. Inr ''id1'') ''5521999999999'' False ''hello'' constructed
     = (Inl ClientNotReady, constructed, []) \<and>
   sendFile (\<lambda>chatId c. Inr ''id1'') ''5521999999999'' False ''a.pdf'' (Some ''JVBERi0='') None
       constructed
     = (Inl ClientNotReady, constructed, [])"
proof -
  have h: "client constructed = None \<or> \<not> isReady constructed"
    by (simp add: constructed_def initializeClient_def fields_initial_def)
  show ?thesis
    using h not_ready_gate [OF h, of "\<lambda>chatId c. Inr ''id1''" "''5521999999999''" False
        "''hello''" "''a.pdf''" "Some ''JVBERi0=''" None]
    by simp
qed

section \<open>Logout\<close>

text \<open>
  Claim C2. Whenever \<open>logout\<close> runs with a transport handle present, whatever the
  transport's logout does (\<open>outcome\<close>: it throws or it returns), the caller gets that
  outcome (the thrown error is propagated), and the manager it then sees has \<open>isReady\<close>
  false and the cached code cleared (\<open>qr\<close> null, \<open>timestamp\<close> 0); the other two fields keep
  their values.
\<close>

theorem logout_cleanup:
  assumes "client s \<noteq> None"
  shows "\<exists>s'. logout outcome s = (outcome, s', [Logout]) \<and>
           \<not> isReady s' \<and> qrCodeState s' = \<lparr>qr = None, timestamp = 0\<rparr> \<and>
           client s' = client s \<and> isInitializing s' = isInitializing s"
  using assms by (cases outcome) (simp_all add: logout_def logout_finally_def)

theorem logout_cleanup_witness:
  "client ready_with_code \<noteq> None \<and>
   logout (Inl (External ''Protocol error'')) ready_with_code =
     (Inl (External ''Protocol error''),
      \<lparr>client = Some Client, qrCodeState = \<lparr>qr = None, timestamp = 0\<rparr>,
       isInitializing = False, isReady = False\<rparr>, [Logout])"
proof -
  have h: "client ready_with_code \<noteq> None" by (simp add: ready_with_code_def)
  from logout_cleanup [OF h, of "Inl (External ''Protocol error'')"]
  obtain s' where "logout (Inl (External ''Protocol error'')) ready_with_code
      = (Inl (External ''Protocol error''), s', [Logout])"
    and "\<not> isReady s'" and "qrCodeState s' = \<lparr>qr = None, timestamp = 0\<rparr>"
    and "client s' = client ready_with_code"
    and "isInitializing s' = isInitializing ready_with_code"
    by blast
  then show ?thesis using h by (cases s') (simp add: ready_with_code_def)
qed

section \<open>Chat identifiers\<close>

text \<open>
  Claim C3, as the spec states it: \<open>formatChatId raw True\<close> returns \<open>raw\<close> unchanged if and
  only if \<open>raw\<close> ends with \<open>@g.us\<close>. The source tests \<open>phone.includes('@g.us')\<close>, so an
  address that has the suffix in the middle is returned unchanged although it does not
  end with it.
\<close>

theorem formatChatId_group_counterexample:
  "\<not> (formatChatId ''120363@g.us.bak'' True = ''120363@g.us.bak''
        \<longleftrightarrow> suffix ''@g.us'' ''120363@g.us.bak'')"
  by (simp add: formatChatId_def suffix_def)

text \<open>
  Claim C3, amended: \<open>formatChatId raw True\<close> returns \<open>raw\<close> unchanged if and only if \<open>raw\<close>
  contains \<open>@g.us\<close> somewhere; otherwise it returns \<open>raw\<close> with \<open>@g.us\<close> appended.
\<close>

theorem formatChatId_group:
  "(formatChatId raw True = raw \<longleftrightarrow> sublist ''@g.us'' raw) \<and>
   (\<not> sublist ''@g.us'' raw \<longrightarrow> formatChatId raw True = raw @ ''@g.us'')"
  by (simp add: formatChatId_def js_includes_sublist)

theorem formatChatId_group_witness:
  "\<not> sublist ''@g.us'' ''120363'' \<and> formatChatId ''120363'' True = ''120363@g.us'' \<and>
   sublist ''@g.us'' ''120363@g.us.bak'' \<and>
   formatChatId ''120363@g.us.bak'' True = ''120363@g.us.bak''"
proof -
  have h1: "\<not> sublist ''@g.us'' ''120363''" by (simp add: sublist_Cons_right)
  have h2: "sublist ''@g.us'' ''120363@g.us.bak''" by (simp add: sublist_Cons_right)
  show ?thesis
    using h1 h2 formatChatId_group [of "''120363''"] formatChatId_group [of "''120363@g.us.bak''"]
    by simp
qed

text \<open>
  Claim C7. Formatting a group address twice is the same as formatting it once:
  \<open>format(format(raw, true), true) = format(raw, true)\<close> for every \<open>raw\<close>.
\<close>

theorem formatChatId_group_idempotent:
  "formatChatId (formatChatId raw True) True = formatChatId raw True"
  by (simp add: formatChatId_def js_includes_sublist)

theorem formatChatId_group_idempotent_witness:
  "formatChatId (formatChatId ''120363'' True) True = ''120363@g.us''"
  using formatChatId_group_idempotent [of "''120363''"]
  by (simp add: formatChatId_def)

text \<open>
  Claim C8. For an individual, \<open>formatChatId raw False\<close> is \<open>raw\<close> with every character
  that is not one of the ten decimal digits removed, followed by \<open>@c.us\<close>; and
  \<open>format("+55 21 99999-9999", false) = "5521999999999@c.us"\<close>.
\<close>

theorem formatChatId_individual:
  "formatChatId raw False = filter (\<lambda>c. c \<in> set ''0123456789'') raw @ ''@c.us'' \<and>
   formatChatId ''+55 21 99999-9999'' False = ''5521999999999@c.us''"
proof -
  have "replace_non_digits raw = filter (\<lambda>c. c \<in> set ''0123456789'') raw"
    unfolding replace_non_digits_filter by (rule filter_cong) (simp_all only: is_digit_enum)
  moreover have "formatChatId ''+55 21 99999-9999'' False = ''5521999999999@c.us''"
    by (simp add: formatChatId_def is_digit_def)
  ultimately show ?thesis by (simp add: formatChatId_def)
qed

theorem formatChatId_individual_witness:
  "formatChatId ''(21) 9-88'' False = ''21988@c.us''"
  using formatChatId_individual [of "''(21) 9-88''"] by simp

section \<open>The dispatch operations leave the manager alone\<close>

text \<open>
  Claim C9. \<open>sendMessage\<close> and \<open>sendFile\<close> write no field of the manager: whatever the
  call does (it fails the readiness gate, the transport throws, or the message is sent),
  the manager after the call is the manager before it, so \<open>client\<close>, \<open>isReady\<close>,
  \<open>isInitializing\<close> and \<open>qrCodeState\<close> hold the values they held.
\<close>

theorem dispatch_frame:
  "fst (snd (sendMessage transport raw g message s)) = s \<and>
   fst (snd (sendFile transport raw g fname b64 cap s)) = s"
  by (simp add: sendMessage_def sendFile_def Let_def split: sum.splits)

theorem dispatch_frame_witness:
  "sendMessage (\<lambda>chatId c. Inr ''true_5521999999999@c.us_3EB0'') ''+55 21 99999-9999'' False ''hi'' ready_manager
     = (Inr \<lparr>success = True, messageId = ''true_5521999999999@c.us_3EB0''\<rparr>, ready_manager,
        [SendMessage ''5521999999999@c.us'' (Text ''hi'')]) \<and>
   fst (snd (sendFile (\<lambda>chatId c. Inl (External ''Evaluation failed'')) ''+55 21 99999-9999'' False
     ''a.pdf'' (Some ''JVBERi0='') None ready_manager)) = ready_manager"
proof -
  have r: "client ready_manager \<noteq> None \<and> isReady ready_manager"
    by (simp add: ready_manager_def constructed_def initializeClient_def fields_initial_def)
  have f: "formatChatId ''+55 21 99999-9999'' False = ''5521999999999@c.us''"
    by (simp add: formatChatId_def is_digit_def)
  have "sendMessage (\<lambda>chatId c. Inr ''true_5521999999999@c.us_3EB0'') ''+55 21 99999-9999'' False ''hi'' ready_manager
     = (Inr \<lparr>success = True, messageId = ''true_5521999999999@c.us_3EB0''\<rparr>,
        fst (snd (sendMessage (\<lambda>chatId c. Inr ''true_5521999999999@c.us_3EB0'') ''+55 21 99999-9999'' False ''hi'' ready_manager)),
        [SendMessage ''5521999999999@c.us'' (Text ''hi'')])"
    using r f by (simp add: sendMessage_def)
  then show ?thesis
    using dispatch_frame [of "\<lambda>chatId c. Inr ''true_5521999999999@c.us_3EB0''" "''+55 21 99999-9999''" False "''hi''" ready_manager]
      dispatch_frame [of "\<lambda>chatId c. Inl (External ''Evaluation failed'')" "''+55 21 99999-9999''" False
        "''hi''" ready_manager "''a.pdf''" "Some ''JVBERi0=''" None]
    by simp
qed

section \<open>MIME types\<close>

text \<open>
  Claim C4, as the spec states it: every filename that contains no \<open>.\<close> resolves to
  \<open>application/octet-stream\<close>. \<open>filename.split('.')\<close> of such a name is the one-element
  array holding the whole name, so the name itself is the lookup key: the file called
  \<open>pdf\<close> resolves to \<open>application/pdf\<close>.
\<close>

theorem getMimeType_counterexample:
  "CHR ''.'' \<notin> set ''pdf'' \<and> getMimeType ''pdf'' = MimeString ''application/pdf'' \<and>
   getMimeType ''pdf'' \<noteq> MimeString ''application/octet-stream''"
  by (simp add: getMimeType_def extension_def split_def pop_def toLowerCase_def lower_char_def capitals_def smalls_def
      mimeTypes_get_def mimeTypes_def)

text \<open>
  Claim C4, amended. The lookup key is the lower-cased part of the filename after its
  final \<open>.\<close> (the empty key when the name ends with \<open>.\<close>), and the whole lower-cased
  filename when it contains no \<open>.\<close>. A key that is an entry of the table resolves to that
  entry; a key that is no entry of the table, and is neither of the inherited property
  names \<open>constructor\<close> and \<open>__proto__\<close>, resolves to \<open>application/octet-stream\<close>. Two
  filenames that differ only in the case of letters resolve alike, so
  \<open>resolve("A.PDF") = resolve("a.pdf")\<close>; and \<open>resolve("noext")\<close> is
  \<open>application/octet-stream\<close>.
\<close>

theorem getMimeType_lookup:
  "(CHR ''.'' \<notin> set e \<longrightarrow> extension (p @ ''.'' @ e) = Some (toLowerCase e)) \<and>
   (CHR ''.'' \<notin> set f \<longrightarrow> extension f = Some (toLowerCase f)) \<and>
   (extension f = Some key \<longrightarrow> map_of mimeTypes key = Some m \<longrightarrow> getMimeType f = MimeString m) \<and>
   (extension f = Some key \<longrightarrow> map_of mimeTypes key = None \<longrightarrow>
      key \<noteq> ''constructor'' \<longrightarrow> key \<noteq> ''__proto__'' \<longrightarrow>
      getMimeType f = MimeString ''application/octet-stream'') \<and>
   (toLowerCase f = toLowerCase g \<longrightarrow> getMimeType f = getMimeType g) \<and>
   getMimeType ''A.PDF'' = getMimeType ''a.pdf'' \<and>
   getMimeType ''noext'' = MimeString ''application/octet-stream''"
proof -
  have c3: "extension f = Some key \<Longrightarrow> map_of mimeTypes key = Some m \<Longrightarrow> getMimeType f = MimeString m"
    by (simp add: getMimeType_def mimeTypes_get_def)
  have c4: "extension f = Some key \<Longrightarrow> map_of mimeTypes key = None \<Longrightarrow>
      key \<noteq> ''constructor'' \<Longrightarrow> key \<noteq> ''__proto__'' \<Longrightarrow>
      getMimeType f = MimeString ''application/octet-stream''"
    by (simp add: getMimeType_def mimeTypes_get_def)
  have c5: "\<And>x y. toLowerCase x = toLowerCase y \<Longrightarrow> getMimeType x = getMimeType y"
    by (metis getMimeType_toLowerCase)
  have c6: "getMimeType ''A.PDF'' = getMimeType ''a.pdf''"
    by (rule c5 [of "''A.PDF''" "''a.pdf''"]) (simp add: toLowerCase_def lower_char_def capitals_def smalls_def)
  have c7: "getMimeType ''noext'' = MimeString ''application/octet-stream''"
    by (simp add: getMimeType_def extension_def split_def pop_def toLowerCase_def lower_char_def capitals_def smalls_def
      mimeTypes_get_def mimeTypes_def)
  show ?thesis
    using extension_after_dot extension_no_dot c3 c4 c5 c6 c7 by blast
qed

theorem getMimeType_lookup_witness:
  "CHR ''.'' \<notin> set ''PDF'' \<and> extension ''report.v2.PDF'' = Some ''pdf'' \<and>
   map_of mimeTypes ''pdf'' = Some ''application/pdf'' \<and>
   getMimeType ''report.v2.PDF'' = MimeString ''application/pdf'' \<and>
   CHR ''.'' \<notin> set ''noext'' \<and> extension ''noext'' = Some ''noext'' \<and>
   map_of mimeTypes ''noext'' = None \<and>
   getMimeType ''noext'' = MimeString ''application/octet-stream''"
proof -
  have h1: "CHR ''.'' \<notin> set ''PDF''" by simp
  have h2: "CHR ''.'' \<notin> set ''noext''" by simp
  have l1: "toLowerCase ''PDF'' = ''pdf''" by (simp add: toLowerCase_def lower_char_def capitals_def smalls_def)
  have l2: "toLowerCase ''noext'' = ''noext''" by (simp add: toLowerCase_def lower_char_def capitals_def smalls_def)
  have m1: "map_of mimeTypes ''pdf'' = Some ''application/pdf''" by (simp add: mimeTypes_def)
  have m2: "map_of mimeTypes ''noext'' = None" by (simp add: mimeTypes_def)
  from getMimeType_lookup [of "''PDF''" "''report.v2''" "''report.v2.PDF''" "''pdf''" "''application/pdf''" "''report.v2.PDF''"]
  have a: "extension ''report.v2.PDF'' = Some ''pdf''" using h1 l1 by simp
  from getMimeType_lookup [of "''PDF''" "''report.v2''" "''report.v2.PDF''" "''pdf''" "''application/pdf''" "''report.v2.PDF''"]
  have b: "getMimeType ''report.v2.PDF'' = MimeString ''application/pdf''" using a m1 by blast
  from getMimeType_lookup [of "''PDF''" "''report.v2''" "''noext''" "''noext''" "''application/pdf''" "''noext''"]
  have c: "extension ''noext'' = Some ''noext''" using h2 l2 by simp
  from getMimeType_lookup [of "''PDF''" "''report.v2''" "''noext''" "''noext''" "''application/pdf''" "''noext''"]
  have d: "getMimeType ''noext'' = MimeString ''application/octet-stream''" by blast
  show ?thesis using h1 h2 a b c d m1 m2 by simp
qed

section \<open>The pairing code cache\<close>

text \<open>
  Claim C5. After a \<open>qr\<close> event with a first code and a later \<open>qr\<close> event with a second
  code, whatever events were handled between the two, the cache holds exactly the second
  code with the second event's timestamp; when the two events follow each other directly
  the manager is the one the second event alone would have produced. \<open>getQRCodeImage\<close>
  then hands only the second code to the encoder and returns what the encoder makes of
  it (\<open>null\<close> when the code is empty or the encoder throws).
\<close>

theorem qr_supersedes:
  "qrCodeState (deliver (QrEvent c1 t1 # between @ [QrEvent c2 t2]) s)
     = \<lparr>qr = Some c2, timestamp = t2\<rparr> \<and>
   deliver [QrEvent c1 t1, QrEvent c2 t2] s = deliver [QrEvent c2 t2] s \<and>
   getQRCodeImage toBuffer (deliver (QrEvent c1 t1 # between @ [QrEvent c2 t2]) s)
     = (if c2 = [] then None else (case toBuffer c2 of Inr buf \<Rightarrow> Some buf | Inl e \<Rightarrow> None),
        deliver (QrEvent c1 t1 # between @ [QrEvent c2 t2]) s,
        if c2 = [] then [] else [ToBuffer c2])"
proof -
  let ?s = "deliver (QrEvent c1 t1 # between @ [QrEvent c2 t2]) s"
  have q: "qrCodeState ?s = \<lparr>qr = Some c2, timestamp = t2\<rparr>"
    by (simp add: deliver_Cons deliver_append deliver_Nil)
  have "deliver [QrEvent c1 t1, QrEvent c2 t2] s = deliver [QrEvent c2 t2] s"
    by (simp add: deliver_Cons deliver_Nil)
  moreover have "getQRCodeImage toBuffer ?s
     = (if c2 = [] then None else (case toBuffer c2 of Inr buf \<Rightarrow> Some buf | Inl e \<Rightarrow> None),
        ?s, if c2 = [] then [] else [ToBuffer c2])"
    unfolding getQRCodeImage_def q by (simp split: sum.splits)
  ultimately show ?thesis using q by simp
qed

theorem qr_supersedes_witness:
  "qrCodeState (deliver [QrEvent ''2@first'' 1000, LoadingScreen ''50'', QrEvent ''2@second'' 21000] constructed)
     = \<lparr>qr = Some ''2@second'', timestamp = 21000\<rparr> \<and>
   fst (getQRCodeImage (\<lambda>code. Inr (map of_char code))
     (deliver [QrEvent ''2@first'' 1000, LoadingScreen ''50'', QrEvent ''2@second'' 21000] constructed))
     = Some (map of_char ''2@second'')"
  using qr_supersedes [of "''2@first''" 1000 "[LoadingScreen ''50'']" "''2@second''" 21000 constructed
      "\<lambda>code. Inr (map of_char code)"]
  by simp

text \<open>
  Claim C6. After the \<open>ready\<close> event \<open>isClientReady\<close> is true and the cached code is
  cleared, and \<open>GET /api/qr\<close> answers 400 "Already authenticated" without calling the
  encoder and without changing the manager; the same holds for a request in any state
  whose \<open>isReady\<close> is true, hence for every further request as long as the flag stays set.
\<close>

theorem ready_blocks_pairing:
  "isClientReady (handle Ready s) \<and>
   qrCodeState (handle Ready s) = \<lparr>qr = None, timestamp = 0\<rparr> \<and>
   get_qr toBuffer during (handle Ready s)
     = (Json (Failure ''Already authenticated. Please logout first to get a new QR code.'') 400,
        handle Ready s, []) \<and>
   (isReady s' \<longrightarrow>
      get_qr toBuffer during s'
        = (Json (Failure ''Already authenticated. Please logout first to get a new QR code.'') 400,
           s', []))"
  by (simp add: get_qr_def isClientReady_def)

theorem ready_blocks_pairing_witness:
  "isReady (handle Ready (handle (QrEvent ''2@abc'' 1000) constructed)) \<and>
   get_qr (\<lambda>code. Inr (map of_char code)) (\<lambda>n. []) (handle Ready (handle (QrEvent ''2@abc'' 1000) constructed))
     = (Json (Failure ''Already authenticated. Please logout first to get a new QR code.'') 400,
        handle Ready (handle (QrEvent ''2@abc'' 1000) constructed), [])"
proof -
  have h: "isReady (handle Ready (handle (QrEvent ''2@abc'' 1000) constructed))" by simp
  show ?thesis
    using h ready_blocks_pairing [of "handle (QrEvent ''2@abc'' 1000) constructed"
        "\<lambda>code. Inr (map of_char code)" "\<lambda>n. []"
        "handle Ready (handle (QrEvent ''2@abc'' 1000) constructed)"]
    by blast
qed

section \<open>Stripping the data-URI prefix\<close>

text \<open>
  Claim C10. The route forwards to \<open>sendFile\<close> element 1 of the split of the \<open>base64\<close>
  field on the marker \<open>base64,\<close>. Let \<open>a\<close> and \<open>b\<close> be free of the marker. For a field with
  the marker at least twice, \<open>a\<close> in front of the first occurrence and \<open>b\<close> between the
  first and the second, the media handed to the transport carries exactly \<open>b\<close>, not the
  whole remainder behind the first marker. For a field with the marker once, \<open>a\<close> in
  front of it and \<open>b\<close> behind, the media carries \<open>b\<close>. A field without the marker is
  forwarded unchanged. The same three facts hold of the stripping step \<open>base64Data\<close> alone.
\<close>

theorem data_uri_stripping:
  "(let forwarded = (\<lambda>d. snd (snd (send_file transport
             (Inr \<lparr>body_phone = Some ph, body_isGroup = Some g, body_filename = Some fn,
                   body_caption = cap, body_base64 = Some d\<rparr>) s)));
        sent = (\<lambda>d. [SendMessage (formatChatId ph g)
                (Media \<lparr>media_mimetype = getMimeType fn, media_data = Some d,
                        media_filename = fn\<rparr>
                   (case cap of None \<Rightarrow> None
                    | Some t \<Rightarrow> if t = [] then None else Some t))])
    in isReady s \<longrightarrow> client s \<noteq> None \<longrightarrow> ph \<noteq> [] \<longrightarrow> fn \<noteq> [] \<longrightarrow>
       (\<not> sublist ''base64,'' a \<longrightarrow> \<not> sublist ''base64,'' b \<longrightarrow>
          forwarded (a @ ''base64,'' @ b @ ''base64,'' @ c) = sent b) \<and>
       (\<not> sublist ''base64,'' a \<longrightarrow> \<not> sublist ''base64,'' b \<longrightarrow>
          forwarded (a @ ''base64,'' @ b) = sent b) \<and>
       (\<not> sublist ''base64,'' x \<longrightarrow> x \<noteq> [] \<longrightarrow> forwarded x = sent x)) \<and>
   (\<not> sublist ''base64,'' a \<longrightarrow> \<not> sublist ''base64,'' b \<longrightarrow>
      base64Data (a @ ''base64,'' @ b @ ''base64,'' @ c) = Some b \<and>
      base64Data (a @ ''base64,'' @ b) = Some b) \<and>
   (\<not> sublist ''base64,'' x \<longrightarrow> base64Data x = Some x)"
proof -
  have two: "base64Data (a @ ''base64,'' @ b @ ''base64,'' @ c) = Some b"
    if "\<not> sublist ''base64,'' a" "\<not> sublist ''base64,'' b"
    using that by (rule marker_twice)
  have one: "base64Data (a @ ''base64,'' @ b) = Some b"
    if "\<not> sublist ''base64,'' a" "\<not> sublist ''base64,'' b"
    using that by (rule marker_once)
  have none: "base64Data x = Some x" if "\<not> sublist ''base64,'' x"
    using that by (rule marker_absent)
  have fw: "snd (snd (send_file transport
             (Inr \<lparr>body_phone = Some ph, body_isGroup = Some g, body_filename = Some fn,
                   body_caption = cap, body_base64 = Some d\<rparr>) s))
           = [SendMessage (formatChatId ph g)
                (Media \<lparr>media_mimetype = getMimeType fn, media_data = base64Data d,
                        media_filename = fn\<rparr>
                   (case cap of None \<Rightarrow> None
                    | Some t \<Rightarrow> if t = [] then None else Some t))]"
    if "isReady s" "client s \<noteq> None" "ph \<noteq> []" "fn \<noteq> []" "d \<noteq> []" for d
    using that by (rule send_file_forwards)
  show ?thesis
    unfolding Let_def
    using two one none
      fw [of "a @ ''base64,'' @ b @ ''base64,'' @ c"] fw [of "a @ ''base64,'' @ b"] fw [of x]
    by simp
qed

theorem data_uri_stripping_witness:
  "isReady ready_manager \<and> client ready_manager \<noteq> None \<and>
   \<not> sublist ''base64,'' ''data:image/png;'' \<and> \<not> sublist ''base64,'' ''iVBORw0KGgo='' \<and>
   snd (snd (send_file (\<lambda>chatId c. Inr ''id1'')
      (Inr \<lparr>body_phone = Some ''5521999999999'', body_isGroup = Some False,
            body_filename = Some ''a.png'', body_caption = None,
            body_base64 = Some ''data:image/png;base64,iVBORw0KGgo=base64,AAAA''\<rparr>) ready_manager))
     = [SendMessage ''5521999999999@c.us''
          (Media \<lparr>media_mimetype = MimeString ''image/png'', media_data = Some ''iVBORw0KGgo='',
                  media_filename = ''a.png''\<rparr> None)] \<and>
   snd (snd (send_file (\<lambda>chatId c. Inr ''id1'')
      (Inr \<lparr>body_phone = Some ''5521999999999'', body_isGroup = Some False,
            body_filename = Some ''a.png'', body_caption = None,
            body_base64 = Some ''data:image/png;base64,iVBORw0KGgo=''\<rparr>) ready_manager))
     = [SendMessage ''5521999999999@c.us''
          (Media \<lparr>media_mimetype = MimeString ''image/png'', media_data = Some ''iVBORw0KGgo='',
                  media_filename = ''a.png''\<rparr> None)] \<and>
   snd (snd (send_file (\<lambda>chatId c. Inr ''id1'')
      (Inr \<lparr>body_phone = Some ''5521999999999'', body_isGroup = Some False,
            body_filename = Some ''a.png'', body_caption = None,
            body_base64 = Some ''iVBORw0KGgo=''\<rparr>) ready_manager))
     = [SendMessage ''5521999999999@c.us''
          (Media \<lparr>media_mimetype = MimeString ''image/png'', media_data = Some ''iVBORw0KGgo='',
                  media_filename = ''a.png''\<rparr> None)] \<and>
   base64Data ''data:image/png;base64,iVBORw0KGgo=base64,AAAA'' = Some ''iVBORw0KGgo='' \<and>
   base64Data ''data:image/png;base64,iVBORw0KGgo='' = Some ''iVBORw0KGgo='' \<and>
   base64Data ''iVBORw0KGgo='' = Some ''iVBORw0KGgo=''"
proof -
  have h1: "\<not> sublist ''base64,'' ''data:image/png;''" by (simp add: sublist_Cons_right)
  have h2: "\<not> sublist ''base64,'' ''iVBORw0KGgo=''" by (simp add: sublist_Cons_right)
  have r: "isReady ready_manager" "client ready_manager \<noteq> None"
    by (simp_all add: ready_manager_def constructed_def initializeClient_def fields_initial_def)
  have f: "formatChatId ''5521999999999'' False = ''5521999999999@c.us''"
    by (simp add: formatChatId_def is_digit_def)
  have m: "getMimeType ''a.png'' = MimeString ''image/png''"
    by (simp add: getMimeType_def extension_def split_def pop_def toLowerCase_def lower_char_def capitals_def smalls_def
      mimeTypes_get_def mimeTypes_def)
  show ?thesis
    using h1 h2 r f m
      data_uri_stripping [where a = "''data:image/png;''" and b = "''iVBORw0KGgo=''"
        and c = "''AAAA''" and s = ready_manager and ph = "''5521999999999''"
        and fn = "''a.png''" and transport = "\<lambda>chatId c. Inr ''id1''" and g = False
        and cap = None and x = "''iVBORw0KGgo=''"]
    by (simp add: Let_def)
qed

end
